theory Spec2Isabelle
  imports Main "HOL-Library.Word"
begin

section \<open>The compression codecs of the Kinesis exporter\<close>

text \<open>
  The development follows package \<open>compress\<close> of the exporter
  (\<open>exporter/awskinesisexporter/internal/compress\<close>): the pass-through codec \<open>noop\<close>
  with its four methods, and the test helper \<open>decompress\<close>.

  Go values are modelled as follows.
  \<^item> A \<open>[]byte\<close> is a list of 8-bit words.
  \<^item> An \<open>error\<close> result is an \<open>error option\<close>, \<open>None\<close> being Go's \<open>nil\<close>.
  \<^item> A \<open>panic\<close> is the left injection of a sum; a normal return is the right one.
  \<^item> An \<open>io.Writer\<close> held in a field is a reference: an address into a heap of writer
    objects, or \<open>None\<close> for the \<open>nil\<close> interface value. What \<open>Write\<close> does on the
    object behind the reference is given by a function \<open>wr\<close> (the dynamic dispatch of
    the interface).
\<close>

subsection \<open>Values\<close>

type_synonym byte = "8 word"
type_synonym bytes = "byte list"
type_synonym addr = nat

datatype error = IOError string | UnknownFormat string

datatype panic = NilDereference | PanicMsg string

text \<open>The pair \<open>(n int, err error)\<close> that \<open>Write\<close> returns.\<close>

type_synonym wresult = "int \<times> error option"

text \<open>
  The behaviour of \<open>Write\<close> on a writer object in state \<open>'w\<close>: the object's next state
  and the pair it returns.
\<close>

type_synonym 'w write_fn = "'w \<Rightarrow> bytes \<Rightarrow> 'w \<times> wresult"

type_synonym 'w heap = "addr \<Rightarrow> 'w"

text \<open>
  \<open>bytes.Buffer\<close>, the in-memory growable sink: \<open>Write\<close> appends \<open>p\<close> and returns
  \<open>(len(p), nil)\<close>.
\<close>

definition buffer_Write :: "bytes write_fn" where
  "buffer_Write b p = (b @ p, (int (length p), None))"

subsection \<open>The no-op codec\<close>

text \<open>\<open>type noop struct { data io.Writer }\<close>\<close>

record noop =
  data :: "addr option"

text \<open>
  \<open>func (n *noop) Close() error { panic("implement me") }\<close>: the body is the panic
  alone, whatever the receiver holds.
\<close>

definition noop_Close :: "noop \<Rightarrow> panic + error option" where
  "noop_Close n = Inl (PanicMsg ''implement me'')"

text \<open>\<open>func (n *noop) Reset(w io.Writer) { n.data = w }\<close>\<close>

definition noop_Reset :: "noop \<Rightarrow> addr option \<Rightarrow> noop" where
  "noop_Reset n w = n\<lparr>data := w\<rparr>"

text \<open>
  \<open>func (n noop) Write(p []byte) (int, error) { return n.data.Write(p) }\<close>: a method
  call on the \<open>nil\<close> interface value panics with a nil dereference; otherwise the call
  is the destination's \<open>Write\<close> with the same \<open>p\<close>, and its result is returned as it is.
\<close>

definition noop_Write ::
  "'w write_fn \<Rightarrow> noop \<Rightarrow> bytes \<Rightarrow> 'w heap \<Rightarrow> panic + ('w heap \<times> wresult)" where
  "noop_Write wr n p h =
     (case data n of
        None \<Rightarrow> Inl NilDereference
      | Some a \<Rightarrow> (case wr (h a) p of (w', r) \<Rightarrow> Inr (h(a := w'), r)))"

text \<open>
  \<open>func (n noop) Flush() error { return nil }\<close>: the heap is passed through, so
  that what the call leaves unchanged can be stated.
\<close>

definition noop_Flush :: "noop \<Rightarrow> 'w heap \<Rightarrow> 'w heap \<times> error option" where
  "noop_Flush n h = (h, None)"

text \<open>
  \<open>type compressor struct\<close> is declared outside the files at hand; the constructor
  below fills its one field \<open>compression\<close> with \<open>&noop{}\<close>, the zero value of \<open>noop\<close>,
  whose \<open>data\<close> is \<open>nil\<close>.
\<close>

record compressor =
  compression :: noop

definition NewNoopCompressor :: compressor where
  "NewNoopCompressor = \<lparr>compression = \<lparr>data = None\<rparr>\<rparr>"

text \<open>A run of \<open>Write\<close> calls on the same codec value, stopping at the first panic.\<close>

fun noop_Writes ::
  "'w write_fn \<Rightarrow> noop \<Rightarrow> bytes list \<Rightarrow> 'w heap \<Rightarrow> panic + ('w heap \<times> wresult list)" where
  "noop_Writes wr n [] h = Inr (h, [])"
| "noop_Writes wr n (p # ps) h =
     (case noop_Write wr n p h of
        Inl x \<Rightarrow> Inl x
      | Inr (h', r) \<Rightarrow>
          (case noop_Writes wr n ps h' of
             Inl x \<Rightarrow> Inl x
           | Inr (h'', rs) \<Rightarrow> Inr (h'', r # rs)))"

subsection \<open>The test helper \<open>decompress\<close>\<close>

text \<open>
  \<open>decompress\<close> of the test file: \<open>gzip.NewReader\<close> on the input, then \<open>io.ReadAll\<close>;
  the first error of either is returned with a \<open>nil\<close> slice (the deferred
  \<open>r.Close()\<close> has its result dropped). The reader is the
  standard library's; its two calls are parameters: \<open>NewReader\<close> checks the header and
  gives a reader or an error, \<open>ReadAll\<close> gives the decoded bytes or an error.
\<close>

definition decompress ::
  "(bytes \<Rightarrow> error + 'r) \<Rightarrow> ('r \<Rightarrow> error + bytes) \<Rightarrow> bytes \<Rightarrow> bytes option \<times> error option" where
  "decompress NewReader ReadAll input =
     (case NewReader input of
        Inl err \<Rightarrow> (None, Some err)
      | Inr r \<Rightarrow>
          (case ReadAll r of
             Inl err \<Rightarrow> (None, Some err)
           | Inr decompressedData \<Rightarrow> (Some decompressedData, None)))"

subsection \<open>The deflate-family codecs\<close>

text \<open>
  Modelled from the spec: the codecs for gzip, zlib and raw flate, whose code is not
  among the repository's files (they wrap the standard library's encoders). The spec,
  section 4.1: each "wraps a freshly constructed encoder bound to the destination;
  write feeds input through the encoder; close finalizes the encoded stream (writes
  trailer/footer)"; and "reset rebinds it to a new destination without carrying over
  any buffered state from a previous destination".

  What an encoder computes is a parameter, one \<open>encoder\<close> per format: its state when
  fresh, the bytes it hands to the destination while taking a \<open>Write\<close>, and the bytes
  that finalise the stream at \<open>Close\<close>. A failure can only come from the destination's
  own \<open>Write\<close>, and is passed on.
\<close>

datatype deflate_format = Gzip | Zlib | Flate

record 's encoder =
  enc_init :: 's
  enc_write :: "'s \<Rightarrow> bytes \<Rightarrow> 's \<times> bytes"
  enc_close :: "'s \<Rightarrow> bytes"

type_synonym 's library = "deflate_format \<Rightarrow> 's encoder"

text \<open>
  A codec is the no-op codec of the source or a deflate-family one: its format, the
  destination it is bound to and its encoder's state.
\<close>

datatype 's codec = NoOp noop | Deflate deflate_format "addr option" 's

datatype family = Passthrough | Deflating deflate_format

text \<open>
  Modelled from the spec: a newly minted codec of a family, bound to nothing yet. For
  the pass-through family it is the \<open>&noop{}\<close> that \<open>NewNoopCompressor\<close> builds; for
  a deflate format, a fresh encoder.
\<close>

definition codec_new :: "'s library \<Rightarrow> family \<Rightarrow> 's codec" where
  "codec_new L f =
     (case f of
        Passthrough \<Rightarrow> NoOp (compression NewNoopCompressor)
      | Deflating d \<Rightarrow> Deflate d None (enc_init (L d)))"

text \<open>
  Modelled from the spec: \<open>reset\<close>, for the no-op codec the source's \<open>Reset\<close>; for a
  deflate-family codec the new destination and a fresh encoder state ("without
  carrying over any buffered state").
\<close>

definition codec_Reset :: "'s library \<Rightarrow> 's codec \<Rightarrow> addr option \<Rightarrow> 's codec" where
  "codec_Reset L c w =
     (case c of
        NoOp n \<Rightarrow> NoOp (noop_Reset n w)
      | Deflate d _ _ \<Rightarrow> Deflate d w (enc_init (L d)))"

text \<open>The family a codec instance belongs to.\<close>

definition family_of :: "'s codec \<Rightarrow> family" where
  "family_of c = (case c of NoOp n \<Rightarrow> Passthrough | Deflate d w st \<Rightarrow> Deflating d)"

text \<open>
  Modelled from the spec: \<open>write\<close>, for the no-op codec the source's \<open>Write\<close>; a
  deflate-family codec "feeds input through the encoder" and writes what the encoder
  hands over to the destination, passing on the destination's error.
\<close>

definition codec_Write ::
  "'s library \<Rightarrow> bytes write_fn \<Rightarrow> 's codec \<Rightarrow> bytes \<Rightarrow> bytes heap
     \<Rightarrow> panic + ('s codec \<times> bytes heap \<times> wresult)" where
  "codec_Write L W c p h =
     (case c of
        NoOp n \<Rightarrow>
          (case noop_Write W n p h of
             Inl x \<Rightarrow> Inl x
           | Inr (h', r) \<Rightarrow> Inr (NoOp n, h', r))
      | Deflate d w s \<Rightarrow>
          (case w of
             None \<Rightarrow> Inl NilDereference
           | Some a \<Rightarrow>
               (case enc_write (L d) s p of
                  (s', out) \<Rightarrow>
                    (case W (h a) out of
                       (b', (k, e)) \<Rightarrow>
                         Inr (Deflate d w s', h(a := b'),
                              (if e = None then int (length p) else 0, e))))))"

text \<open>
  Modelled from the spec: \<open>close\<close>, for the no-op codec the source's \<open>Close\<close>; a
  deflate-family codec "finalizes the encoded stream (writes trailer/footer)" to the
  destination, passing on the destination's error.
\<close>

definition codec_Close ::
  "'s library \<Rightarrow> bytes write_fn \<Rightarrow> 's codec \<Rightarrow> bytes heap
     \<Rightarrow> panic + (bytes heap \<times> error option)" where
  "codec_Close L W c h =
     (case c of
        NoOp n \<Rightarrow>
          (case noop_Close n of
             Inl x \<Rightarrow> Inl x
           | Inr e \<Rightarrow> Inr (h, e))
      | Deflate d w s \<Rightarrow>
          (case w of
             None \<Rightarrow> Inl NilDereference
           | Some a \<Rightarrow>
               (case W (h a) (enc_close (L d) s) of
                  (b', (k, e)) \<Rightarrow> Inr (h(a := b'), e))))"

text \<open>
  The whole stream an encoder produces for one \<open>Write\<close> of \<open>xs\<close> followed by \<open>Close\<close>.
\<close>

definition encoded :: "'s encoder \<Rightarrow> bytes \<Rightarrow> bytes" where
  "encoded E xs = (case enc_write E (enc_init E) xs of (s', out) \<Rightarrow> out @ enc_close E s')"

subsection \<open>The compression operation and its factory\<close>

text \<open>
  The memory the calls share: the buffers allocated so far, and the next free address.
\<close>

record store =
  cells :: "bytes heap"
  next_free :: addr

definition new_Buffer :: "store \<Rightarrow> addr \<times> store" where
  "new_Buffer s =
     (next_free s, s\<lparr>cells := (cells s)(next_free s := []), next_free := Suc (next_free s)\<rparr>)"

text \<open>
  Modelled from the spec: the compression operation, whose code is not among the
  repository's files. The spec, section 4.3: "1. Allocate a fresh destination buffer.
  2. Construct a fresh codec instance bound to that destination (equivalent to calling
  reset on a newly minted codec, or directly constructing one already bound). 3. Write
  the entire input to the codec. 4. Close the codec to finalize the output. 5. Return
  the destination buffer's contents. Failure points: a write failure or close failure
  aborts the operation and surfaces the underlying I/O error".

  The result is Go's pair \<open>(output []byte, err error)\<close>, each side \<open>nil\<close> or not; a
  panic of a codec method ends the call. \<open>W\<close> is what \<open>Write\<close> does on the destination
  buffer: \<open>buffer_Write\<close> for \<open>bytes.Buffer\<close>.
\<close>

type_synonym result = "bytes option \<times> error option"

definition compress ::
  "'s library \<Rightarrow> bytes write_fn \<Rightarrow> family \<Rightarrow> bytes \<Rightarrow> store \<Rightarrow> panic + (store \<times> result)" where
  "compress L W f input s =
     (case new_Buffer s of
        (a, s1) \<Rightarrow>
          (case codec_Write L W (codec_Reset L (codec_new L f) (Some a)) input (cells s1) of
             Inl x \<Rightarrow> Inl x
           | Inr (c, h2, (k, Some err)) \<Rightarrow> Inr (s1\<lparr>cells := h2\<rparr>, (None, Some err))
           | Inr (c, h2, (k, None)) \<Rightarrow>
               (case codec_Close L W c h2 of
                  Inl x \<Rightarrow> Inl x
                | Inr (h3, Some err) \<Rightarrow> Inr (s1\<lparr>cells := h3\<rparr>, (None, Some err))
                | Inr (h3, None) \<Rightarrow> Inr (s1\<lparr>cells := h3\<rparr>, (Some (h3 a), None)))))"

text \<open>
  Modelled from the spec: the factory \<open>NewCompressor\<close>, whose code is not among the
  repository's files. The spec, sections 3 and 4.2: the format is "one of a closed set
  {none, noop, gzip, zlib, flate} (case-sensitive, exact match)"; "on success, a
  compression operation bound to the selected codec family. On failure (unrecognized
  identifier), returns an error identifying the invalid format". The result is Go's
  pair \<open>(Compressor, error)\<close>.
\<close>

type_synonym operation = "bytes \<Rightarrow> store \<Rightarrow> panic + (store \<times> result)"

definition NewCompressor ::
  "'s library \<Rightarrow> bytes write_fn \<Rightarrow> string \<Rightarrow> operation option \<times> error option" where
  "NewCompressor L W format =
     (if format = ''none'' \<or> format = ''noop'' then (Some (compress L W Passthrough), None)
      else if format = ''gzip'' then (Some (compress L W (Deflating Gzip)), None)
      else if format = ''zlib'' then (Some (compress L W (Deflating Zlib)), None)
      else if format = ''flate'' then (Some (compress L W (Deflating Flate)), None)
      else (None, Some (UnknownFormat format)))"

text \<open>What a call gives back to its caller: the panic, or the pair returned.\<close>

definition outcome :: "panic + (store \<times> result) \<Rightarrow> panic + result" where
  "outcome r = map_sum id snd r"

subsection \<open>Calls in progress\<close>

text \<open>
  Modelled from the spec: the same operation, one step of section 4.3 at a time, so
  that calls of several workers can be interleaved over the shared store (section 5:
  "invoked from a pool of parallel worker routines"; "each invocation's destination
  buffer and codec instance are exclusively owned by that invocation"). A frame is
  the activation record of one call: the input not yet written, the address of its
  buffer and its codec, and at the end the pair returned or the panic. Each step is
  taken as a whole.
\<close>

datatype 's frame =
    Entered bytes
  | Bound addr "'s codec" bytes
  | Written addr "'s codec"
  | Closed addr
  | Returned result
  | Panicked panic

definition step ::
  "'s library \<Rightarrow> bytes write_fn \<Rightarrow> family \<Rightarrow> 's frame \<Rightarrow> store \<Rightarrow> 's frame \<times> store" where
  "step L W f fr s =
     (case fr of
        Entered x \<Rightarrow>
          (case new_Buffer s of
             (a, s1) \<Rightarrow> (Bound a (codec_Reset L (codec_new L f) (Some a)) x, s1))
      | Bound a c x \<Rightarrow>
          (case codec_Write L W c x (cells s) of
             Inl q \<Rightarrow> (Panicked q, s)
           | Inr (c', h, (k, Some err)) \<Rightarrow> (Returned (None, Some err), s\<lparr>cells := h\<rparr>)
           | Inr (c', h, (k, None)) \<Rightarrow> (Written a c', s\<lparr>cells := h\<rparr>))
      | Written a c \<Rightarrow>
          (case codec_Close L W c (cells s) of
             Inl q \<Rightarrow> (Panicked q, s)
           | Inr (h, Some err) \<Rightarrow> (Returned (None, Some err), s\<lparr>cells := h\<rparr>)
           | Inr (h, None) \<Rightarrow> (Closed a, s\<lparr>cells := h\<rparr>))
      | Closed a \<Rightarrow> (Returned (Some (cells s a), None), s)
      | Returned r \<Rightarrow> (Returned r, s)
      | Panicked q \<Rightarrow> (Panicked q, s))"

definition frame_outcome :: "'s frame \<Rightarrow> (panic + result) option" where
  "frame_outcome fr =
     (case fr of Returned r \<Rightarrow> Some (Inr r) | Panicked q \<Rightarrow> Some (Inl q) | _ \<Rightarrow> None)"

text \<open>
  A pool of calls of one operation over one store. A schedule names, step by step,
  the call that moves next; an index naming no call moves nothing.
\<close>

definition sched_step ::
  "'s library \<Rightarrow> bytes write_fn \<Rightarrow> family \<Rightarrow> nat \<Rightarrow> 's frame list \<times> store
     \<Rightarrow> 's frame list \<times> store" where
  "sched_step L W f i st =
     (case st of
        (frs, s) \<Rightarrow>
          if i < length frs
          then (case step L W f (frs ! i) s of (fr', s') \<Rightarrow> (frs[i := fr'], s'))
          else (frs, s))"

definition run ::
  "'s library \<Rightarrow> bytes write_fn \<Rightarrow> family \<Rightarrow> nat list \<Rightarrow> 's frame list \<times> store
     \<Rightarrow> 's frame list \<times> store" where
  "run L W f sched st = fold (sched_step L W f) sched st"


subsection \<open>An instance of the library parameter\<close>

text \<open>
  A small framing encoder with its reader, standing for the standard library where a
  concrete instance is wanted: two magic bytes before the first payload byte, the
  payload as it is, and one closing byte written by \<open>Close\<close>. The reader refuses a
  stream without the magic bytes or without the closing byte.
\<close>

definition framing :: "bool encoder" where
  "framing =
     \<lparr>enc_init = False,
      enc_write = (\<lambda>started p. (True, (if started then [] else [0x1F, 0x8B]) @ p)),
      enc_close = (\<lambda>started. (if started then [] else [0x1F, 0x8B]) @ [0x00])\<rparr>"

definition framing_NewReader :: "bytes \<Rightarrow> error + bytes" where
  "framing_NewReader input =
     (case input of
        a # b # rest \<Rightarrow>
          if a = 0x1F \<and> b = 0x8B then Inr rest else Inl (IOError ''invalid header'')
      | _ \<Rightarrow> Inl (IOError ''unexpected EOF''))"

definition framing_ReadAll :: "bytes \<Rightarrow> error + bytes" where
  "framing_ReadAll r =
     (if r \<noteq> [] \<and> last r = 0x00 then Inr (butlast r) else Inl (IOError ''unexpected EOF''))"

text \<open>
  A destination of bounded capacity: \<open>Write\<close> appends while the bytes fit and fails
  with the error \<open>e\<close>, taking nothing, once they do not (an allocation failure of the
  in-memory buffer).
\<close>

definition limited_Write :: "nat \<Rightarrow> error \<Rightarrow> bytes write_fn" where
  "limited_Write cap e b p =
     (if length b + length p \<le> cap then (b @ p, (int (length p), None)) else (b, (0, Some e)))"

subsection \<open>What a call can see of the store\<close>

text \<open>
  The part of the state a frame owns, with the address of its buffer left out: the
  phase, the codec's own state and the contents of the buffer. \<open>pstep\<close> is the step
  of the operation on that part alone. A frame is in order when its buffer is
  allocated and its codec is bound to it; two frames are apart when they own
  different buffers.
\<close>

definition rebind :: "'s codec \<Rightarrow> addr option \<Rightarrow> 's codec" where
  "rebind c w = (case c of NoOp n \<Rightarrow> NoOp (n\<lparr>data := w\<rparr>) | Deflate d _ st \<Rightarrow> Deflate d w st)"

definition bound_to :: "'s codec \<Rightarrow> addr \<Rightarrow> bool" where
  "bound_to c a = (case c of NoOp n \<Rightarrow> data n = Some a | Deflate d w st \<Rightarrow> w = Some a)"

datatype 's pview =
    PEntered bytes
  | PBound "'s codec" bytes bytes
  | PWritten "'s codec" bytes
  | PClosed bytes
  | PReturned result
  | PPanicked panic

definition view :: "'s frame \<Rightarrow> store \<Rightarrow> 's pview" where
  "view fr s =
     (case fr of
        Entered x \<Rightarrow> PEntered x
      | Bound a c x \<Rightarrow> PBound (rebind c None) x (cells s a)
      | Written a c \<Rightarrow> PWritten (rebind c None) (cells s a)
      | Closed a \<Rightarrow> PClosed (cells s a)
      | Returned r \<Rightarrow> PReturned r
      | Panicked q \<Rightarrow> PPanicked q)"

definition owned :: "'s frame \<Rightarrow> addr option" where
  "owned fr =
     (case fr of Bound a c x \<Rightarrow> Some a | Written a c \<Rightarrow> Some a | Closed a \<Rightarrow> Some a
      | _ \<Rightarrow> None)"

definition frame_ok :: "'s frame \<Rightarrow> store \<Rightarrow> bool" where
  "frame_ok fr s =
     (case fr of
        Bound a c x \<Rightarrow> a < next_free s \<and> bound_to c a
      | Written a c \<Rightarrow> a < next_free s \<and> bound_to c a
      | Closed a \<Rightarrow> a < next_free s
      | _ \<Rightarrow> True)"

definition apart :: "'s frame \<Rightarrow> 's frame \<Rightarrow> bool" where
  "apart fr fr' = (owned fr = None \<or> owned fr' = None \<or> owned fr \<noteq> owned fr')"

definition pstep :: "'s library \<Rightarrow> bytes write_fn \<Rightarrow> family \<Rightarrow> 's pview \<Rightarrow> 's pview" where
  "pstep L W f p =
     (case p of
        PEntered x \<Rightarrow> PBound (rebind (codec_Reset L (codec_new L f) None) None) x []
      | PBound c x b \<Rightarrow>
          (case codec_Write L W (rebind c (Some 0)) x (\<lambda>_. b) of
             Inl q \<Rightarrow> PPanicked q
           | Inr (c', h, (k, Some err)) \<Rightarrow> PReturned (None, Some err)
           | Inr (c', h, (k, None)) \<Rightarrow> PWritten (rebind c' None) (h 0))
      | PWritten c b \<Rightarrow>
          (case codec_Close L W (rebind c (Some 0)) (\<lambda>_. b) of
             Inl q \<Rightarrow> PPanicked q
           | Inr (h, Some err) \<Rightarrow> PReturned (None, Some err)
           | Inr (h, None) \<Rightarrow> PClosed (h 0))
      | PClosed b \<Rightarrow> PReturned (Some b, None)
      | PReturned r \<Rightarrow> PReturned r
      | PPanicked q \<Rightarrow> PPanicked q)"

definition poutcome :: "'s pview \<Rightarrow> (panic + result) option" where
  "poutcome p =
     (case p of PReturned r \<Rightarrow> Some (Inr r) | PPanicked q \<Rightarrow> Some (Inl q) | _ \<Rightarrow> None)"

definition pool_inv ::
  "'s library \<Rightarrow> bytes write_fn \<Rightarrow> family \<Rightarrow> bytes list \<Rightarrow> nat list
     \<Rightarrow> 's frame list \<times> store \<Rightarrow> bool" where
  "pool_inv L W f xs sched st =
     (case st of
        (frs, s) \<Rightarrow>
          length frs = length xs
          \<and> (\<forall>j<length xs. frame_ok (frs ! j) s
                \<and> view (frs ! j) s = (pstep L W f ^^ count_list sched j) (PEntered (xs ! j)))
          \<and> (\<forall>j<length xs. \<forall>k<length xs. j \<noteq> k \<longrightarrow> apart (frs ! j) (frs ! k)))"


section \<open>Properties\<close>

text \<open>
  C1. \<open>Close\<close> on the no-op codec panics in every binding state: with a destination
  bound, with none, and in particular on the codec of \<open>NewNoopCompressor\<close> before any
  \<open>Reset\<close>; it never returns an error value.
\<close>

theorem noop_Close_panics:
  "noop_Close n = Inl (PanicMsg ''implement me'')
   \<and> noop_Close (noop_Reset n w) = Inl (PanicMsg ''implement me'')
   \<and> noop_Close (compression NewNoopCompressor) = Inl (PanicMsg ''implement me'')
   \<and> data (compression NewNoopCompressor) = None"
  by (simp add: noop_Close_def NewNoopCompressor_def)

text \<open>
  C8. With a destination bound, \<open>Write(p)\<close> on the no-op codec is the destination's
  \<open>Write\<close> applied to \<open>p\<close> itself: only the destination object changes, by what its
  own \<open>Write\<close> does with \<open>p\<close>, and the pair returned is the destination's. On a
  \<open>bytes.Buffer\<close> that appends \<open>p\<close> and returns \<open>(len(p), nil)\<close>. \<open>Flush\<close>, on a codec
  in any state, returns \<open>nil\<close> and leaves the heap as it was.
\<close>

theorem noop_Write_forwards:
  "(data n = Some a \<longrightarrow>
      noop_Write wr n p h = Inr (h(a := fst (wr (h a) p)), snd (wr (h a) p))
      \<and> noop_Write buffer_Write n p b = Inr (b(a := b a @ p), (int (length p), None)))
   \<and> noop_Flush m h = (h, None)"
  by (simp add: noop_Write_def noop_Flush_def buffer_Write_def split: prod.split)

theorem noop_Write_forwards_witness:
  "data \<lparr>data = Some 0\<rparr> = Some (0::addr)
   \<and> noop_Write buffer_Write \<lparr>data = Some 0\<rparr> [1, 2] (\<lambda>_. [9])
       = Inr ((\<lambda>_. [9])(0 := [9, 1, 2]), (2, None))
   \<and> noop_Flush \<lparr>data = None\<rparr> (\<lambda>_. [9::byte]) = (\<lambda>_. [9], None)"
  using noop_Write_forwards
          [of "\<lparr>data = Some 0\<rparr>" 0 buffer_Write "[1, 2]" "\<lambda>_. [9]" "\<lambda>_. [9]" "\<lparr>data = None\<rparr>"]
  by (simp add: buffer_Write_def)

text \<open>
  C10. The codec inside the value of \<open>NewNoopCompressor\<close> has no destination, and
  \<open>Write\<close> on it, with no \<open>Reset\<close> before, panics with a nil dereference for every
  argument and every destination behaviour.
\<close>

theorem noop_Write_unbound_panics:
  "data (compression NewNoopCompressor) = None
   \<and> noop_Write wr (compression NewNoopCompressor) p h = Inl NilDereference"
  by (simp add: NewNoopCompressor_def noop_Write_def)

subsection \<open>Helper facts on runs of writes\<close>

lemma noop_Writes_bound:
  "data n = Some w \<Longrightarrow>
   \<exists>rs. noop_Writes wr n ps h = Inr (h(w := fold (\<lambda>p s. fst (wr s p)) ps (h w)), rs)
        \<and> length rs = length ps"
proof (induction ps arbitrary: h)
  case Nil
  then show ?case by simp
next
  case (Cons p ps)
  let ?h1 = "h(w := fst (wr (h w) p))"
  from Cons.prems have w1: "noop_Write wr n p h = Inr (?h1, snd (wr (h w) p))"
    by (simp add: noop_Write_def split: prod.split)
  from Cons.IH [OF Cons.prems, of ?h1] obtain rs where
    rs: "noop_Writes wr n ps ?h1 = Inr (?h1(w := fold (\<lambda>p s. fst (wr s p)) ps (?h1 w)), rs)"
        "length rs = length ps"
    by blast
  from w1 rs show ?case by (auto simp: fun_eq_iff)
qed

lemma fold_buffer_Write: "fold (\<lambda>p s. fst (buffer_Write s p)) ps b = b @ concat ps"
  by (induction ps arbitrary: b) (simp_all add: buffer_Write_def)

lemma codec_Reset_bound: "bound_to (codec_Reset L c (Some w)) w"
  by (cases c) (simp_all add: codec_Reset_def bound_to_def noop_Reset_def)

lemma codec_Reset_fresh:
  "codec_Reset L c (Some w) = codec_Reset L (codec_new L (family_of c)) (Some w)"
  by (cases c)
     (simp_all add: codec_Reset_def codec_new_def family_of_def noop_Reset_def
        NewNoopCompressor_def)

lemma codec_Write_after_Reset:
  "\<exists>c' r. codec_Write L W (codec_Reset L c (Some w)) p g
            = Inr (c', g(w := fst (W (g w)
                 (case c of NoOp n \<Rightarrow> p
                  | Deflate d u st \<Rightarrow> snd (enc_write (L d) (enc_init (L d)) p)))), r)"
  by (cases c)
     (simp_all add: codec_Write_def codec_Reset_def noop_Write_def noop_Reset_def
        split: prod.split)

text \<open>
  C7. After \<open>Reset(w)\<close> a codec is bound to \<open>w\<close> and carries nothing over. For the
  no-op codec: it holds nothing but the destination, so its state is the same whatever
  it was bound to before, and every \<open>Write\<close> of a run issued after the \<open>Reset\<close> goes to
  \<open>w\<close>: the run does not panic, the object at \<open>w\<close> has taken the writes in order, and
  every other object, an earlier destination among them, is as it was; on a
  \<open>bytes.Buffer\<close> the destination ends with the written bytes appended in order. For
  every codec instance, the no-op one and the deflate-family ones: the reset codec is
  bound to \<open>w\<close> and is the very codec that a newly minted one of its family becomes on
  the same reset, whatever destination and encoder state it had; the \<open>Write\<close> that
  follows does not panic, changes the object at \<open>w\<close> alone, and hands to \<open>w\<close> what a
  fresh encoder produces for the bytes written, with nothing left from before.
\<close>

theorem Reset_rebinds_every_codec:
  "data (noop_Reset n (Some w)) = Some w
   \<and> noop_Reset n (Some w) = noop_Reset n' (Some w)
   \<and> (\<exists>rs. noop_Writes wr (noop_Reset n (Some w)) ps h
             = Inr (h(w := fold (\<lambda>p s. fst (wr s p)) ps (h w)), rs))
   \<and> (\<forall>h' rs v. noop_Writes wr (noop_Reset n (Some w)) ps h = Inr (h', rs) \<longrightarrow> v \<noteq> w
         \<longrightarrow> h' v = h v)
   \<and> (\<forall>h' rs. noop_Writes buffer_Write (noop_Reset n (Some w)) ps b = Inr (h', rs)
         \<longrightarrow> h' w = b w @ concat ps)
   \<and> bound_to (codec_Reset L c (Some w)) w
   \<and> codec_Reset L c (Some w) = codec_Reset L (codec_new L (family_of c)) (Some w)
   \<and> codec_Reset L (Deflate d u st) (Some w) = Deflate d (Some w) (enc_init (L d))
   \<and> (\<exists>c' g' r. codec_Write L W (codec_Reset L c (Some w)) p g = Inr (c', g', r))
   \<and> (\<forall>c' g' r v. codec_Write L W (codec_Reset L c (Some w)) p g = Inr (c', g', r)
         \<longrightarrow> v \<noteq> w \<longrightarrow> g' v = g v)
   \<and> (\<forall>c' g' r. codec_Write L W (codec_Reset L (Deflate d u st) (Some w)) p g = Inr (c', g', r)
         \<longrightarrow> g' w = fst (W (g w) (snd (enc_write (L d) (enc_init (L d)) p))))"
proof -
  let ?n = "noop_Reset n (Some w)"
  have d: "data ?n = Some w" by (simp add: noop_Reset_def)
  have f: "noop_Reset n (Some w) = noop_Reset n' (Some w)" by (simp add: noop_Reset_def)
  from noop_Writes_bound [OF d, of wr ps h] obtain rs where
    g: "noop_Writes wr ?n ps h = Inr (h(w := fold (\<lambda>p s. fst (wr s p)) ps (h w)), rs)"
    by blast
  from noop_Writes_bound [OF d, of buffer_Write ps b] obtain rs' where
    g': "noop_Writes buffer_Write ?n ps b
           = Inr (b(w := fold (\<lambda>p s. fst (buffer_Write s p)) ps (b w)), rs')"
    by blast
  from g have fr: "\<forall>h' rs v. noop_Writes wr ?n ps h = Inr (h', rs) \<longrightarrow> v \<noteq> w \<longrightarrow> h' v = h v"
    by auto
  from g' have bf: "\<forall>h' rs. noop_Writes buffer_Write ?n ps b = Inr (h', rs) \<longrightarrow> h' w = b w @ concat ps"
    by (auto simp: fold_buffer_Write)
  have noop_part:
    "data ?n = Some w
     \<and> noop_Reset n (Some w) = noop_Reset n' (Some w)
     \<and> (\<exists>rs. noop_Writes wr ?n ps h = Inr (h(w := fold (\<lambda>p s. fst (wr s p)) ps (h w)), rs))
     \<and> (\<forall>h' rs v. noop_Writes wr ?n ps h = Inr (h', rs) \<longrightarrow> v \<noteq> w \<longrightarrow> h' v = h v)
     \<and> (\<forall>h' rs. noop_Writes buffer_Write ?n ps b = Inr (h', rs) \<longrightarrow> h' w = b w @ concat ps)"
    using d f g fr bf by blast
  have bd: "bound_to (codec_Reset L c (Some w)) w" by (rule codec_Reset_bound)
  have fresh: "codec_Reset L c (Some w) = codec_Reset L (codec_new L (family_of c)) (Some w)"
    by (rule codec_Reset_fresh)
  have df: "codec_Reset L (Deflate d u st) (Some w) = Deflate d (Some w) (enc_init (L d))"
    by (simp add: codec_Reset_def)
  from codec_Write_after_Reset [of L W c w p g] obtain c1 r1 where
    w1: "codec_Write L W (codec_Reset L c (Some w)) p g
           = Inr (c1, g(w := fst (W (g w)
                 (case c of NoOp n \<Rightarrow> p
                  | Deflate d u st \<Rightarrow> snd (enc_write (L d) (enc_init (L d)) p)))), r1)"
    by blast
  from w1 have ex: "\<exists>c' g' r. codec_Write L W (codec_Reset L c (Some w)) p g = Inr (c', g', r)"
    by blast
  from w1 have only: "\<forall>c' g' r v. codec_Write L W (codec_Reset L c (Some w)) p g = Inr (c', g', r)
         \<longrightarrow> v \<noteq> w \<longrightarrow> g' v = g v"
    by auto
  from codec_Write_after_Reset [of L W "Deflate d u st" w p g]
  have what: "\<forall>c' g' r. codec_Write L W (codec_Reset L (Deflate d u st) (Some w)) p g = Inr (c', g', r)
         \<longrightarrow> g' w = fst (W (g w) (snd (enc_write (L d) (enc_init (L d)) p)))"
    by auto
  from noop_part bd fresh df ex only what show ?thesis by blast
qed

theorem Reset_rebinds_every_codec_witness:
  "noop_Writes buffer_Write (noop_Reset \<lparr>data = Some 0\<rparr> (Some 1)) [[1, 2], [3]] (\<lambda>_. [])
     = Inr ((\<lambda>_. [])(1 := [1, 2, 3]), [(2, None), (1, None)])
   \<and> ((\<lambda>_. [])(1 := [1, 2, 3::byte])) (0::addr) = []
   \<and> noop_Reset \<lparr>data = Some 0\<rparr> (Some 1) = noop_Reset \<lparr>data = None\<rparr> (Some 1)
   \<and> codec_Reset (\<lambda>_. framing) (Deflate Gzip (Some 0) True) (Some 1) = Deflate Gzip (Some 1) False
   \<and> codec_Write (\<lambda>_. framing) buffer_Write
        (codec_Reset (\<lambda>_. framing) (Deflate Gzip (Some 0) True) (Some 1)) [7]
        ((\<lambda>_. [])(0 := [0x1F, 0x8B, 5]))
       = Inr (Deflate Gzip (Some 1) True,
              ((\<lambda>_. [])(0 := [0x1F, 0x8B, 5]))(1 := [0x1F, 0x8B, 7]), (1, None))"
proof -
  let ?L = "\<lambda>_::deflate_format. framing"
  let ?g = "(\<lambda>_. [])(0 := [0x1F, 0x8B, 5]) :: bytes heap"
  note t = Reset_rebinds_every_codec
             [where n = "\<lparr>data = Some 0\<rparr>" and w = 1 and n' = "\<lparr>data = None\<rparr>"
                and wr = buffer_Write and ps = "[[1, 2], [3]]" and h = "\<lambda>_. []" and b = "\<lambda>_. []"
                and L = ?L and c = "Deflate Gzip (Some 0) True" and d = Gzip and u = "Some 0"
                and st = True and W = buffer_Write and p = "[7]" and g = ?g]
  have a: "noop_Writes buffer_Write (noop_Reset \<lparr>data = Some 0\<rparr> (Some 1)) [[1, 2], [3]] (\<lambda>_. [])
             = Inr ((\<lambda>_. [])(1 := [1, 2, 3]), [(2, None), (1, None)])"
    by (simp add: noop_Reset_def noop_Write_def buffer_Write_def)
  from t have b: "noop_Reset \<lparr>data = Some 0\<rparr> (Some 1) = noop_Reset \<lparr>data = None\<rparr> (Some 1)"
    by blast
  from t have c: "codec_Reset ?L (Deflate Gzip (Some 0) True) (Some 1)
                    = Deflate Gzip (Some 1) (enc_init (?L Gzip))"
    by blast
  have i: "enc_init (?L Gzip) = False" by (simp add: framing_def)
  have w: "codec_Write ?L buffer_Write (Deflate Gzip (Some 1) False) [7] ?g
             = Inr (Deflate Gzip (Some 1) True, ?g(1 := [0x1F, 0x8B, 7]), (1, None))"
    by (simp add: codec_Write_def buffer_Write_def framing_def)
  from c i have c': "codec_Reset ?L (Deflate Gzip (Some 0) True) (Some 1)
                       = Deflate Gzip (Some 1) False"
    by simp
  from w c' have w': "codec_Write ?L buffer_Write
        (codec_Reset ?L (Deflate Gzip (Some 0) True) (Some 1)) [7] ?g
       = Inr (Deflate Gzip (Some 1) True, ?g(1 := [0x1F, 0x8B, 7]), (1, None))"
    by simp
  have z: "((\<lambda>_. [])(1 := [1, 2, 3::byte])) (0::addr) = []" by simp
  from a z b c' w' show ?thesis by (intro conjI)
qed

subsection \<open>Helper facts on the operation\<close>

lemma compress_Deflating_buffer:
  "compress L buffer_Write (Deflating d) x s =
     Inr (\<lparr>cells = (cells s)(next_free s := encoded (L d) x), next_free = Suc (next_free s)\<rparr>,
          (Some (encoded (L d) x), None))"
  by (simp add: compress_def new_Buffer_def codec_new_def codec_Reset_def codec_Write_def
      codec_Close_def buffer_Write_def encoded_def split: prod.split option.split)

lemma compress_exclusive:
  "compress L W f x s = Inr (s', (out, err)) \<Longrightarrow> (err = None) = (out \<noteq> None)"
  by (cases f)
     (auto simp add: compress_def new_Buffer_def codec_new_def codec_Reset_def codec_Write_def
      codec_Close_def noop_Reset_def noop_Write_def noop_Close_def NewNoopCompressor_def
      split: prod.splits option.splits sum.splits if_splits)

lemma framing_round_trip:
  "framing_NewReader (encoded framing xs) = Inr (xs @ [0x00])
   \<and> framing_ReadAll (xs @ [0x00]) = Inr xs"
  by (simp add: framing_NewReader_def framing_ReadAll_def encoded_def framing_def)

text \<open>
  C2. A format outside the five names is refused by the factory itself: the pair
  returned holds no operation and the error naming the format. An operation comes
  back for the five names and for nothing else (the match is exact, so \<open>GZIP\<close> is
  refused), hence no operation exists that could refuse a format when it is called.
\<close>

theorem NewCompressor_rejects_unknown:
  assumes "format \<notin> {''none'', ''noop'', ''gzip'', ''zlib'', ''flate''}"
  shows "NewCompressor L W format = (None, Some (UnknownFormat format))
         \<and> (fst (NewCompressor L W g) \<noteq> None) = (g \<in> {''none'', ''noop'', ''gzip'', ''zlib'', ''flate''})
         \<and> (snd (NewCompressor L W g) = None) = (g \<in> {''none'', ''noop'', ''gzip'', ''zlib'', ''flate''})"
  using assms by (simp add: NewCompressor_def)

theorem NewCompressor_rejects_unknown_witness:
  "''invalid-format'' \<notin> {''none'', ''noop'', ''gzip'', ''zlib'', ''flate''}
   \<and> NewCompressor (\<lambda>_. framing) buffer_Write ''invalid-format''
       = (None, Some (UnknownFormat ''invalid-format''))
   \<and> fst (NewCompressor (\<lambda>_. framing) buffer_Write ''GZIP'') = None
   \<and> fst (NewCompressor (\<lambda>_. framing) buffer_Write ''gzip'') \<noteq> None"
  using NewCompressor_rejects_unknown [of "''invalid-format''" "\<lambda>_. framing" buffer_Write "''GZIP''"]
        NewCompressor_rejects_unknown [of "''invalid-format''" "\<lambda>_. framing" buffer_Write "''gzip''"]
  by simp

text \<open>
  C4. Given that the standard library's gzip reader decodes what its gzip writer
  produces for one \<open>Write\<close> followed by \<open>Close\<close>, the operation of
  \<open>NewCompressor("gzip")\<close> round-trips: on a \<open>bytes.Buffer\<close> it returns an output and no
  error for every input, and \<open>decompress\<close> of that output is the input, with no error.
\<close>

theorem gzip_round_trip:
  assumes "\<forall>xs. \<exists>r. NewReader (encoded (L Gzip) xs) = Inr r \<and> ReadAll r = Inr xs"
  shows "\<exists>op. NewCompressor L buffer_Write ''gzip'' = (Some op, None)
           \<and> (\<exists>s' out. op input s = Inr (s', (Some out, None))
                 \<and> decompress NewReader ReadAll out = (Some input, None))"
proof -
  from assms obtain r where r: "NewReader (encoded (L Gzip) input) = Inr r" "ReadAll r = Inr input"
    by blast
  have n: "NewCompressor L buffer_Write ''gzip'' = (Some (compress L buffer_Write (Deflating Gzip)), None)"
    by (simp add: NewCompressor_def)
  from r have d: "decompress NewReader ReadAll (encoded (L Gzip) input) = (Some input, None)"
    by (simp add: decompress_def)
  from n d compress_Deflating_buffer [of L Gzip input s] show ?thesis by blast
qed

theorem gzip_round_trip_witness:
  "\<exists>op. NewCompressor (\<lambda>_. framing) buffer_Write ''gzip'' = (Some op, None)
      \<and> (\<exists>s' out. op [0x59, 0x6F, 0x75] \<lparr>cells = (\<lambda>_. []), next_free = 0\<rparr> = Inr (s', (Some out, None))
            \<and> decompress framing_NewReader framing_ReadAll out = (Some [0x59, 0x6F, 0x75], None))"
proof -
  have "\<forall>xs. \<exists>r. framing_NewReader (encoded ((\<lambda>_. framing) Gzip) xs) = Inr r \<and> framing_ReadAll r = Inr xs"
    using framing_round_trip by blast
  from gzip_round_trip [OF this] show ?thesis .
qed

text \<open>
  C6. Of the pair an operation returns, exactly one side is present: an error comes
  with a \<open>nil\<close> output, and no error with an output. When the codec's \<open>Write\<close> reports
  an error the call returns that error and no output; when the \<open>Write\<close> succeeds and
  \<open>Close\<close> reports an error the call returns that error and no output, whatever has
  reached the buffer by then.
\<close>

theorem compress_error_excludes_output:
  "(\<forall>s' out err. compress L W f x s = Inr (s', (out, err)) \<longrightarrow> (err = None) = (out \<noteq> None))
   \<and> (\<forall>c h k e.
         codec_Write L W (codec_Reset L (codec_new L f) (Some (next_free s))) x
           (cells (snd (new_Buffer s))) = Inr (c, h, (k, Some e))
         \<longrightarrow> outcome (compress L W f x s) = Inr (None, Some e))
   \<and> (\<forall>c h k h' e.
         codec_Write L W (codec_Reset L (codec_new L f) (Some (next_free s))) x
           (cells (snd (new_Buffer s))) = Inr (c, h, (k, None))
         \<and> codec_Close L W c h = Inr (h', Some e)
         \<longrightarrow> outcome (compress L W f x s) = Inr (None, Some e))"
proof -
  have a: "\<forall>s' out err. compress L W f x s = Inr (s', (out, err)) \<longrightarrow> (err = None) = (out \<noteq> None)"
    using compress_exclusive by blast
  have b: "\<forall>c h k e.
         codec_Write L W (codec_Reset L (codec_new L f) (Some (next_free s))) x
           (cells (snd (new_Buffer s))) = Inr (c, h, (k, Some e))
         \<longrightarrow> outcome (compress L W f x s) = Inr (None, Some e)"
    by (simp add: compress_def outcome_def new_Buffer_def)
  have c: "\<forall>c h k h' e.
         codec_Write L W (codec_Reset L (codec_new L f) (Some (next_free s))) x
           (cells (snd (new_Buffer s))) = Inr (c, h, (k, None))
         \<and> codec_Close L W c h = Inr (h', Some e)
         \<longrightarrow> outcome (compress L W f x s) = Inr (None, Some e)"
    by (simp add: compress_def outcome_def new_Buffer_def)
  from a b c show ?thesis by blast
qed

theorem compress_error_excludes_output_witness:
  "outcome (compress (\<lambda>_. framing) (limited_Write 0 (IOError ''full'')) (Deflating Gzip) [1]
      \<lparr>cells = (\<lambda>_. []), next_free = 0\<rparr>) = Inr (None, Some (IOError ''full''))
   \<and> outcome (compress (\<lambda>_. framing) (limited_Write 3 (IOError ''full'')) (Deflating Gzip) [1]
      \<lparr>cells = (\<lambda>_. []), next_free = 0\<rparr>) = Inr (None, Some (IOError ''full''))
   \<and> outcome (compress (\<lambda>_. framing) (limited_Write 4 (IOError ''full'')) (Deflating Gzip) [1]
      \<lparr>cells = (\<lambda>_. []), next_free = 0\<rparr>) = Inr (Some [0x1F, 0x8B, 1, 0], None)"
proof -
  let ?L = "\<lambda>_::deflate_format. framing"
  let ?e = "IOError ''full''"
  let ?s = "\<lparr>cells = (\<lambda>_. []), next_free = 0\<rparr>"
  let ?c = "codec_Reset ?L (codec_new ?L (Deflating Gzip)) (Some (next_free ?s))"
  have w0: "codec_Write ?L (limited_Write 0 ?e) ?c [1] (cells (snd (new_Buffer ?s)))
              = Inr (Deflate Gzip (Some 0) True, (\<lambda>_. [])(0 := []), (0, Some ?e))"
    by (simp add: new_Buffer_def codec_new_def codec_Reset_def codec_Write_def
        limited_Write_def framing_def)
  have w3: "codec_Write ?L (limited_Write 3 ?e) ?c [1] (cells (snd (new_Buffer ?s)))
              = Inr (Deflate Gzip (Some 0) True, (\<lambda>_. [])(0 := [0x1F, 0x8B, 1]), (1, None))"
    by (simp add: new_Buffer_def codec_new_def codec_Reset_def codec_Write_def
        limited_Write_def framing_def)
  have c3: "codec_Close ?L (limited_Write 3 ?e) (Deflate Gzip (Some 0) True)
              ((\<lambda>_. [])(0 := [0x1F, 0x8B, 1]))
              = Inr ((\<lambda>_. [])(0 := [0x1F, 0x8B, 1]), Some ?e)"
    by (simp add: codec_Close_def limited_Write_def framing_def)
  from compress_error_excludes_output
          [of ?L "limited_Write 0 ?e" "Deflating Gzip" "[1]" ?s] w0
  have r0: "outcome (compress ?L (limited_Write 0 ?e) (Deflating Gzip) [1] ?s) = Inr (None, Some ?e)"
    by blast
  from compress_error_excludes_output
          [of ?L "limited_Write 3 ?e" "Deflating Gzip" "[1]" ?s] w3 c3
  have r3: "outcome (compress ?L (limited_Write 3 ?e) (Deflating Gzip) [1] ?s) = Inr (None, Some ?e)"
    by blast
  have r4: "outcome (compress ?L (limited_Write 4 ?e) (Deflating Gzip) [1] ?s)
              = Inr (Some [0x1F, 0x8B, 1, 0], None)"
    by (simp add: compress_def outcome_def new_Buffer_def codec_new_def codec_Reset_def
      codec_Write_def codec_Close_def limited_Write_def framing_def)
  from r0 r3 r4 show ?thesis by blast
qed

subsection \<open>Helper facts on interleaved calls\<close>

lemmas codec_defs = codec_new_def codec_Reset_def codec_Write_def codec_Close_def
  noop_Reset_def noop_Write_def noop_Close_def NewNoopCompressor_def rebind_def bound_to_def

lemma step_view:
  "frame_ok fr s \<Longrightarrow> view (fst (step L W f fr s)) (snd (step L W f fr s)) = pstep L W f (view fr s)"
  apply (cases fr)
  subgoal for x by (cases f) (simp_all add: step_def view_def pstep_def frame_ok_def new_Buffer_def codec_defs)
  subgoal for a c x
    by (cases c) (auto simp add: step_def view_def pstep_def frame_ok_def codec_defs
        split: prod.splits option.splits sum.splits)
  subgoal for a c
    by (cases c) (auto simp add: step_def view_def pstep_def frame_ok_def codec_defs
        split: prod.splits option.splits sum.splits)
  by (simp_all add: step_def view_def pstep_def)

lemma step_frame_ok: "frame_ok fr s \<Longrightarrow> frame_ok (fst (step L W f fr s)) (snd (step L W f fr s))"
  apply (cases fr)
  subgoal for x by (cases f) (simp_all add: step_def frame_ok_def new_Buffer_def codec_defs)
  subgoal for a c x
    by (cases c) (auto simp add: step_def frame_ok_def codec_defs
        split: prod.splits option.splits sum.splits)
  subgoal for a c
    by (cases c) (auto simp add: step_def frame_ok_def codec_defs
        split: prod.splits option.splits sum.splits)
  by (simp_all add: step_def frame_ok_def)

lemma step_other:
  assumes "frame_ok fr s" "frame_ok fr' s" "apart fr fr'"
  shows "view fr' (snd (step L W f fr s)) = view fr' s
         \<and> frame_ok fr' (snd (step L W f fr s))
         \<and> apart (fst (step L W f fr s)) fr'"
  using assms
  apply (cases fr)
  subgoal for x
    by (cases fr') (auto simp add: step_def frame_ok_def view_def apart_def owned_def new_Buffer_def)
  subgoal for a c x
    by (cases c; cases fr')
       (auto simp add: step_def frame_ok_def view_def apart_def owned_def codec_defs
        split: prod.splits option.splits sum.splits)
  subgoal for a c
    by (cases c; cases fr')
       (auto simp add: step_def frame_ok_def view_def apart_def owned_def codec_defs
        split: prod.splits option.splits sum.splits)
  by (simp_all add: step_def apart_def owned_def)

lemma apart_sym: "apart fr fr' = apart fr' fr"
  by (auto simp: apart_def)

lemma pool_inv_init: "pool_inv L W f xs [] (map Entered xs, s)"
  by (simp add: pool_inv_def frame_ok_def view_def apart_def owned_def)

lemma pool_inv_step:
  assumes "pool_inv L W f xs sched st"
  shows "pool_inv L W f xs (sched @ [i]) (sched_step L W f i st)"
proof -
  obtain frs s where st: "st = (frs, s)" by (cases st)
  from assms st have len: "length frs = length xs"
    and each: "\<And>j. j < length xs \<Longrightarrow> frame_ok (frs ! j) s
                \<and> view (frs ! j) s = (pstep L W f ^^ count_list sched j) (PEntered (xs ! j))"
    and dis: "\<And>j k. j < length xs \<Longrightarrow> k < length xs \<Longrightarrow> j \<noteq> k \<Longrightarrow> apart (frs ! j) (frs ! k)"
    by (auto simp: pool_inv_def)
  show ?thesis
  proof (cases "i < length frs")
    case False
    then have "sched_step L W f i st = st" by (simp add: sched_step_def st)
    moreover from False len have "\<And>j. j < length xs \<Longrightarrow> count_list (sched @ [i]) j = count_list sched j"
      by auto
    ultimately show ?thesis using assms by (simp add: pool_inv_def st)
  next
    case True
    obtain fr' s' where stp: "step L W f (frs ! i) s = (fr', s')" by (cases "step L W f (frs ! i) s")
    from True stp have res: "sched_step L W f i st = (frs[i := fr'], s')"
      by (simp add: sched_step_def st)
    from True len have ix: "i < length xs" by simp
    have own: "frame_ok fr' s' \<and> view fr' s' = (pstep L W f ^^ count_list (sched @ [i]) i) (PEntered (xs ! i))"
      using each [OF ix] step_frame_ok [of "frs ! i" s L W f] step_view [of "frs ! i" s L W f] stp
      by simp
    have others: "frame_ok (frs ! j) s' \<and> view (frs ! j) s' = (pstep L W f ^^ count_list (sched @ [i]) j) (PEntered (xs ! j))
                  \<and> apart fr' (frs ! j)"
      if "j < length xs" "j \<noteq> i" for j
      using each [OF ix] each [OF that(1)] dis [OF ix that(1)] that(2)
            step_other [of "frs ! i" s "frs ! j" L W f] stp
      by auto
    have a: "frame_ok ((frs[i := fr']) ! j) s'
             \<and> view ((frs[i := fr']) ! j) s' = (pstep L W f ^^ count_list (sched @ [i]) j) (PEntered (xs ! j))"
      if "j < length xs" for j
      using own others [OF that] True len that by (cases "j = i") simp_all
    have b: "apart ((frs[i := fr']) ! j) ((frs[i := fr']) ! k)"
      if "j < length xs" "k < length xs" "j \<noteq> k" for j k
    proof (cases "j = i")
      case True
      with that others [OF that(2)] len show ?thesis by simp
    next
      case jn: False
      show ?thesis
      proof (cases "k = i")
        case True
        with that jn others [OF that(1) jn] len show ?thesis by (simp add: apart_sym)
      next
        case False
        with jn dis [OF that] show ?thesis by simp
      qed
    qed
    from a b len show ?thesis by (simp add: pool_inv_def res)
  qed
qed

lemma pool_inv_run: "pool_inv L W f xs sched (run L W f sched (map Entered xs, s))"
proof (induction sched rule: rev_induct)
  case Nil
  show ?case by (simp add: run_def pool_inv_init)
next
  case (snoc i sched)
  have "run L W f (sched @ [i]) (map Entered xs, s)
          = sched_step L W f i (run L W f sched (map Entered xs, s))"
    by (simp add: run_def)
  with pool_inv_step [OF snoc.IH] show ?case by simp
qed

lemma frame_outcome_view: "frame_outcome fr = poutcome (view fr s)"
  by (cases fr) (simp_all add: frame_outcome_def poutcome_def view_def)

lemma pstep_final: "poutcome p \<noteq> None \<Longrightarrow> pstep L W f p = p"
  by (cases p) (simp_all add: poutcome_def pstep_def)

lemma funpow_pstep_final: "poutcome p \<noteq> None \<Longrightarrow> (pstep L W f ^^ n) p = p"
  by (induction n) (simp_all add: pstep_final)

lemma solo_four:
  "poutcome ((pstep L W f ^^ 4) (PEntered x)) = Some (outcome (compress L W f x s))"
proof -
  have four: "(pstep L W f ^^ 4) (PEntered x)
                = pstep L W f (pstep L W f (pstep L W f (pstep L W f (PEntered x))))"
    by (simp add: numeral_Bit0 funpow_add)
  show ?thesis
    unfolding four
    by (cases f)
       (auto simp add: pstep_def poutcome_def outcome_def compress_def new_Buffer_def codec_defs
        split: prod.splits option.splits sum.splits)
qed

lemma funpow_pstep_enough:
  assumes "4 \<le> n"
  shows "poutcome ((pstep L W f ^^ n) (PEntered x)) = Some (outcome (compress L W f x s))"
proof -
  from assms obtain k where n: "n = k + 4" by (metis le_add_diff_inverse2)
  have fin: "poutcome ((pstep L W f ^^ 4) (PEntered x)) \<noteq> None"
    by (simp add: solo_four [of L W f x s])
  have "(pstep L W f ^^ n) (PEntered x) = (pstep L W f ^^ k) ((pstep L W f ^^ 4) (PEntered x))"
    by (simp add: n funpow_add)
  also have "\<dots> = (pstep L W f ^^ 4) (PEntered x)"
    by (rule funpow_pstep_final [OF fin])
  finally show ?thesis by (simp add: solo_four)
qed

lemma compress_any_store: "outcome (compress L W f x s) = outcome (compress L W f x s')"
  using solo_four [of L W f x s] solo_four [of L W f x s'] by simp

lemma NewCompressor_operation:
  "NewCompressor L W format = (Some op, None) \<Longrightarrow> \<exists>f. op = compress L W f"
  by (auto simp: NewCompressor_def split: if_splits)


text \<open>
  C3. A call's result depends on its own input alone. Whatever the store holds, the
  same operation on the same input ends the same way: the same pair of output and
  error, or the same panic. And in a pool of calls of one operation, interleaved step
  by step in any order over one store, a call that has been given its four steps has
  ended exactly as it would have ended alone: the inputs of the other calls, and how
  far they have got, do not enter into it.
\<close>

theorem calls_depend_on_own_input_only:
  assumes "i < length xs" and "4 \<le> count_list sched i"
  shows "frame_outcome (fst (run L W f sched (map Entered xs, s)) ! i)
           = Some (outcome (compress L W f (xs ! i) s'))
         \<and> outcome (compress L W f x s) = outcome (compress L W f x s')
         \<and> (\<forall>format op. NewCompressor L W format = (Some op, None)
               \<longrightarrow> outcome (op x s) = outcome (op x s'))"
proof -
  obtain frs t where r: "run L W f sched (map Entered xs, s) = (frs, t)"
    by (cases "run L W f sched (map Entered xs, s)")
  from pool_inv_run [of L W f xs sched s] r assms(1)
  have "view (frs ! i) t = (pstep L W f ^^ count_list sched i) (PEntered (xs ! i))"
    by (simp add: pool_inv_def)
  with funpow_pstep_enough [OF assms(2), of L W f "xs ! i" s']
  have "frame_outcome (frs ! i) = Some (outcome (compress L W f (xs ! i) s'))"
    by (simp add: frame_outcome_view [of "frs ! i" t])
  with r have a: "frame_outcome (fst (run L W f sched (map Entered xs, s)) ! i)
           = Some (outcome (compress L W f (xs ! i) s'))"
    by simp
  have b: "outcome (compress L W f x s) = outcome (compress L W f x s')"
    by (rule compress_any_store)
  have c: "\<forall>format op. NewCompressor L W format = (Some op, None)
               \<longrightarrow> outcome (op x s) = outcome (op x s')"
    using NewCompressor_operation compress_any_store by metis
  from a b c show ?thesis by blast
qed

theorem calls_depend_on_own_input_only_witness:
  "frame_outcome
     (fst (run (\<lambda>_. framing) buffer_Write (Deflating Gzip) [0, 1, 1, 0, 0, 1, 1, 0]
             (map Entered [[1], [2, 3]], \<lparr>cells = (\<lambda>_. []), next_free = 0\<rparr>)) ! 0)
     = Some (Inr (Some [0x1F, 0x8B, 1, 0], None))
   \<and> frame_outcome
     (fst (run (\<lambda>_. framing) buffer_Write (Deflating Gzip) [0, 1, 1, 0, 0, 1, 1, 0]
             (map Entered [[1], [2, 3]], \<lparr>cells = (\<lambda>_. []), next_free = 0\<rparr>)) ! 1)
     = Some (Inr (Some [0x1F, 0x8B, 2, 3, 0], None))"
proof -
  let ?L = "\<lambda>_::deflate_format. framing"
  let ?s = "\<lparr>cells = (\<lambda>_. []), next_free = 0\<rparr>"
  let ?sched = "[0, 1, 1, 0, 0, 1, 1, 0] :: nat list"
  let ?xs = "[[1], [2, 3]] :: bytes list"
  have c0: "4 \<le> count_list ?sched 0" and c1: "4 \<le> count_list ?sched 1" by simp_all
  have l0: "0 < length ?xs" and l1: "1 < length ?xs" by simp_all
  have e0: "outcome (compress ?L buffer_Write (Deflating Gzip) (?xs ! 0) ?s)
              = Inr (Some [0x1F, 0x8B, 1, 0], None)"
    by (simp add: compress_Deflating_buffer outcome_def encoded_def framing_def)
  have e1: "outcome (compress ?L buffer_Write (Deflating Gzip) (?xs ! 1) ?s)
              = Inr (Some [0x1F, 0x8B, 2, 3, 0], None)"
    by (simp add: compress_Deflating_buffer outcome_def encoded_def framing_def)
  from calls_depend_on_own_input_only [OF l0 c0, of ?L buffer_Write "Deflating Gzip" ?s ?s] e0
       calls_depend_on_own_input_only [OF l1 c1, of ?L buffer_Write "Deflating Gzip" ?s ?s] e1
  show ?thesis by simp
qed

end
